theory Spec2Isabelle
  imports Complex_Main "HOL-Library.Word"
begin

unbundle bit_operations_syntax

section \<open>Common types\<close>

text \<open>
  Go's \<^verbatim>\<open>error\<close> values are modelled by their message; a \<^verbatim>\<open>nil\<close> error is
  \<open>None\<close> of \<open>error option\<close>, and a function returning \<^verbatim>\<open>(T, error)\<close> with a
  meaningless \<^verbatim>\<open>T\<close> on failure returns \<open>error + T\<close>.
\<close>

datatype error = Err string

type_synonym byte = "8 word"

section \<open>The checksum utility (package keys)\<close>

subsection \<open>encoding/binary, big endian\<close>

text \<open>
  \<^verbatim>\<open>binary.BigEndian.PutUint32(b, v)\<close> stores \<^verbatim>\<open>byte(v >> 24), byte(v >> 16),
  byte(v >> 8), byte(v)\<close> in \<^verbatim>\<open>b[0..3]\<close>; \<^verbatim>\<open>Uint32(b)\<close> reads
  \<^verbatim>\<open>uint32(b[3]) | uint32(b[2])<<8 | uint32(b[1])<<16 | uint32(b[0])<<24\<close>.
  The buffer is always the fresh \<^verbatim>\<open>make([]byte, Size)\<close> here, so \<open>PutUint32\<close>
  returns the four bytes. The 64-bit versions do the same with eight bytes.
\<close>

definition PutUint32 :: "32 word \<Rightarrow> byte list" where
  "PutUint32 v = [ucast (drop_bit 24 v), ucast (drop_bit 16 v), ucast (drop_bit 8 v), ucast v]"

definition Uint32 :: "byte list \<Rightarrow> 32 word" where
  "Uint32 b = ucast (b ! 3) OR push_bit 8 (ucast (b ! 2)) OR push_bit 16 (ucast (b ! 1))
     OR push_bit 24 (ucast (b ! 0))"

definition PutUint64 :: "64 word \<Rightarrow> byte list" where
  "PutUint64 v = [ucast (drop_bit 56 v), ucast (drop_bit 48 v), ucast (drop_bit 40 v),
     ucast (drop_bit 32 v), ucast (drop_bit 24 v), ucast (drop_bit 16 v), ucast (drop_bit 8 v),
     ucast v]"

definition Uint64 :: "byte list \<Rightarrow> 64 word" where
  "Uint64 b = ucast (b ! 7) OR push_bit 8 (ucast (b ! 6)) OR push_bit 16 (ucast (b ! 5))
     OR push_bit 24 (ucast (b ! 4)) OR push_bit 32 (ucast (b ! 3)) OR push_bit 40 (ucast (b ! 2))
     OR push_bit 48 (ucast (b ! 1)) OR push_bit 56 (ucast (b ! 0))"

subsection \<open>hash/crc32 and hash/crc64\<close>

text \<open>
  The checksum itself is Go's standard library, not code of this repository. The ECC
  functions below take \<^verbatim>\<open>MakeTable\<close> and \<^verbatim>\<open>Checksum\<close> as parameters \<open>mk\<close> and
  \<open>cs\<close> (any table representation \<open>'t\<close>), so what is proved of them holds for every
  checksum. To run them on concrete bytes, \<open>crc_MakeTable\<close> and \<open>crc_Checksum\<close> follow
  the library's table-driven algorithm (one table entry per byte, eight shift-and-xor
  rounds each; the update loop over the input between two complements), at either width.
\<close>

definition crc_MakeTable :: "'a::len word \<Rightarrow> byte \<Rightarrow> 'a word" where
  "crc_MakeTable poly i =
     ((\<lambda>crc. if crc AND 1 = 1 then drop_bit 1 crc XOR poly else drop_bit 1 crc) ^^ 8) (ucast i)"

definition crc_Update :: "'a::len word \<Rightarrow> (byte \<Rightarrow> 'a word) \<Rightarrow> byte list \<Rightarrow> 'a word" where
  "crc_Update crc tab p = NOT (fold (\<lambda>v c. tab (ucast c XOR v) XOR drop_bit 8 c) p (NOT crc))"

definition crc_Checksum :: "byte list \<Rightarrow> (byte \<Rightarrow> 'a::len word) \<Rightarrow> 'a word" where
  "crc_Checksum data tab = crc_Update 0 tab data"

definition crc32_Size :: nat where "crc32_Size = 4"
definition crc64_Size :: nat where "crc64_Size = 8"

definition crc32_IEEE :: "32 word" where "crc32_IEEE = 0xedb88320"
definition crc32_Castagnoli :: "32 word" where "crc32_Castagnoli = 0x82f63b78"
definition crc32_Koopman :: "32 word" where "crc32_Koopman = 0xeb31d82e"
definition crc64_ISO :: "64 word" where "crc64_ISO = 0xD800000000000000"
definition crc64_ECMA :: "64 word" where "crc64_ECMA = 0xC96C5795D7870F42"

subsection \<open>NoECC, CRC32, CRC64\<close>

definition NoECC_AddECC :: "byte list \<Rightarrow> byte list" where
  "NoECC_AddECC input = input"

definition NoECC_CheckECC :: "byte list \<Rightarrow> error + byte list" where
  "NoECC_CheckECC input = Inr input"

text \<open>
  \<^verbatim>\<open>type CRC32 struct { Poly uint32; table *crc32.Table }\<close> and the same struct at
  64 bits: one record at both widths. The methods have a pointer receiver and
  \<^verbatim>\<open>getTable\<close> writes to it, so each returns the receiver as it leaves it.
\<close>

record ('p, 't) CRC =
  Poly :: "'p"
  table :: "'t option"

type_synonym 't CRC32 = "(32 word, 't) CRC"
type_synonym 't CRC64 = "(64 word, 't) CRC"

definition NewIEEECRC32 :: "'t CRC32" where
  "NewIEEECRC32 = \<lparr>Poly = crc32_IEEE, table = None\<rparr>"

definition NewCastagnoliCRC32 :: "'t CRC32" where
  "NewCastagnoliCRC32 = \<lparr>Poly = crc32_Castagnoli, table = None\<rparr>"

definition NewKoopmanCRC32 :: "'t CRC32" where
  "NewKoopmanCRC32 = \<lparr>Poly = crc32_Koopman, table = None\<rparr>"

definition NewISOCRC64 :: "'t CRC64" where
  "NewISOCRC64 = \<lparr>Poly = crc64_ISO, table = None\<rparr>"

definition NewECMACRC64 :: "'t CRC64" where
  "NewECMACRC64 = \<lparr>Poly = crc64_ECMA, table = None\<rparr>"

definition CRC32_getTable :: "(32 word \<Rightarrow> 't) \<Rightarrow> 't CRC32 \<Rightarrow> 't \<times> 't CRC32" where
  "CRC32_getTable mk c =
     (case table c of
        Some t \<Rightarrow> (t, c)
      | None \<Rightarrow>
          let c1 = (if Poly c = 0 then c\<lparr>Poly := crc32_IEEE\<rparr> else c);
              t = mk (Poly c1)
          in (t, c1\<lparr>table := Some t\<rparr>))"

definition CRC32_AddECC ::
  "(32 word \<Rightarrow> 't) \<Rightarrow> (byte list \<Rightarrow> 't \<Rightarrow> 32 word) \<Rightarrow> 't CRC32 \<Rightarrow> byte list \<Rightarrow> byte list \<times> 't CRC32"
where
  "CRC32_AddECC mk cs c input =
     (let (tab, c') = CRC32_getTable mk c;
          crc = cs input tab;
          check = PutUint32 crc;
          output = input @ check
      in (output, c'))"

definition CRC32_CheckECC ::
  "(32 word \<Rightarrow> 't) \<Rightarrow> (byte list \<Rightarrow> 't \<Rightarrow> 32 word) \<Rightarrow> 't CRC32 \<Rightarrow> byte list
     \<Rightarrow> (error + byte list) \<times> 't CRC32"
where
  "CRC32_CheckECC mk cs c input =
     (let (tab, c') = CRC32_getTable mk c in
      if length input \<le> crc32_Size
      then (Inl (Err ''input too short, no checksum present''), c')
      else
        let cut = length input - crc32_Size;
            data = take cut input;
            check = drop cut input;
            crc = Uint32 check;
            calc = cs data tab
        in if crc \<noteq> calc then (Inl (Err ''Checksum does not match''), c')
           else (Inr data, c'))"

definition CRC64_getTable :: "(64 word \<Rightarrow> 't) \<Rightarrow> 't CRC64 \<Rightarrow> 't \<times> 't CRC64" where
  "CRC64_getTable mk c =
     (case table c of
        Some t \<Rightarrow> (t, c)
      | None \<Rightarrow>
          let c1 = (if Poly c = 0 then c\<lparr>Poly := crc64_ISO\<rparr> else c);
              t = mk (Poly c1)
          in (t, c1\<lparr>table := Some t\<rparr>))"

definition CRC64_AddECC ::
  "(64 word \<Rightarrow> 't) \<Rightarrow> (byte list \<Rightarrow> 't \<Rightarrow> 64 word) \<Rightarrow> 't CRC64 \<Rightarrow> byte list \<Rightarrow> byte list \<times> 't CRC64"
where
  "CRC64_AddECC mk cs c input =
     (let (tab, c') = CRC64_getTable mk c;
          crc = cs input tab;
          check = PutUint64 crc;
          output = input @ check
      in (output, c'))"

definition CRC64_CheckECC ::
  "(64 word \<Rightarrow> 't) \<Rightarrow> (byte list \<Rightarrow> 't \<Rightarrow> 64 word) \<Rightarrow> 't CRC64 \<Rightarrow> byte list
     \<Rightarrow> (error + byte list) \<times> 't CRC64"
where
  "CRC64_CheckECC mk cs c input =
     (let (tab, c') = CRC64_getTable mk c in
      if length input \<le> crc64_Size
      then (Inl (Err ''input too short, no checksum present''), c')
      else
        let cut = length input - crc64_Size;
            data = take cut input;
            check = drop cut input;
            crc = Uint64 check;
            calc = cs data tab
        in if crc \<noteq> calc then (Inl (Err ''Checksum does not match''), c')
           else (Inr data, c'))"

section \<open>The monitor (package monitor): data\<close>

text \<open>
  The event meter, the RPC client and the logger are collaborators outside this code.
  What they answer during one operation is its \<open>world\<close>: the outcome of the \<open>k\<close>-th
  \<^verbatim>\<open>em.Start()\<close> of the operation, of \<^verbatim>\<open>em.Subscribe\<close>, of the
  \<^verbatim>\<open>"validators"\<close> query (asked at most once per operation) and of the \<open>k\<close>-th
  \<^verbatim>\<open>"status"\<close> query. Every function below is then a function of its world, and a
  statement about all worlds is a statement about every behaviour of the collaborators.
  Log lines change no state and are left out.
\<close>

type_synonym chan = nat

text \<open>
  \<^verbatim>\<open>crypto.PubKey\<close> wraps an interface value and \<^verbatim>\<open>Empty()\<close> tells whether it
  is nil: \<open>None\<close> is the empty key.
\<close>

type_synonym PubKey = "byte list option"

text \<open>
  The structs of the tendermint packages, with the fields this code reads. Heights are
  signed integers there, and the code converts them with \<^verbatim>\<open>uint64(...)\<close>.
\<close>

record Header =
  hdr_Height :: int
  hdr_NumTxs :: int

record Validator =
  val_PubKey :: PubKey
  val_VotingPower :: int

record ResultValidators =
  BlockHeight :: int
  Validators :: "Validator list"

record ResultStatus =
  status_PubKey :: PubKey

text \<open>The payload \<^verbatim>\<open>data interface{}\<close> of an event, as the type assertions see it.\<close>

datatype EventData = EventDataNewBlockHeader Header | EventDataOther

record world =
  emStart :: "nat \<Rightarrow> error option"
  emSubscribe :: "error option"
  rpcValidators :: "error + ResultValidators"
  rpcStatus :: "nat \<Rightarrow> error + ResultStatus"

datatype panic =
    CloseOfNilChannel | CloseOfClosedChannel | IndexOutOfRange | InterfaceConversion

text \<open>
  What an operation does to the outside, in order: calls on the event meter, sleeps
  (a \<^verbatim>\<open>time.Duration\<close>, in nanoseconds), sends on the bound channels, goroutines
  started and channels closed.
\<close>

datatype effect =
    EmStart | EmStop | EmRegisterLatencyCallback | EmSubscribe | EmRegisterDisconnectCallback
  | Sleep int
  | SendBlock chan Header | SendBlockLatency chan real | SendDisconnect chan bool
  | GoCheckIsValidatorLoop
  | GoListen string chan chan chan chan
  | Close chan

text \<open>
  \<^verbatim>\<open>uint64(x)\<close> of a signed integer keeps the bits. \<^verbatim>\<open>float64\<close> latencies are
  modelled as reals: the division by \<^verbatim>\<open>1000000.0\<close> is exact on the values used
  below, and rounding plays no part in what is proved.
\<close>

definition uint64 :: "int \<Rightarrow> 64 word" where
  "uint64 x = word_of_int x"

definition Second :: int where
  "Second = 1000000000"

definition maxRestarts :: nat where
  "maxRestarts = 25"

text \<open>
  The \<^verbatim>\<open>Node\<close> struct. Its event meter, RPC client and logger are the collaborators
  above; its \<^verbatim>\<open>quit\<close> channel, made by the constructor, is the flag
  \<open>quit_closed\<close>. A channel field is \<open>None\<close> while it is nil.
\<close>

record Node =
  rpcAddr :: string
  IsValidator :: bool
  pubKey :: PubKey
  Name :: string
  Online :: bool
  Height :: "64 word"
  BlockLatency :: real
  blockCh :: "chan option"
  blockLatencyCh :: "chan option"
  disconnectCh :: "chan option"
  checkIsValidatorInterval :: int
  quit_closed :: bool

section \<open>Node\<close>

definition NewNode :: "string \<Rightarrow> Node" where
  "NewNode addr =
     \<lparr>rpcAddr = addr, IsValidator = False, pubKey = None, Name = addr, Online = False,
      Height = 0, BlockLatency = 0, blockCh = None, blockLatencyCh = None,
      disconnectCh = None, checkIsValidatorInterval = 5 * Second, quit_closed = False\<rparr>"

definition SetCheckIsValidatorInterval :: "int \<Rightarrow> Node \<Rightarrow> Node" where
  "SetCheckIsValidatorInterval d n = n\<lparr>checkIsValidatorInterval := d\<rparr>"

definition SendBlocksTo :: "chan \<Rightarrow> Node \<Rightarrow> Node" where
  "SendBlocksTo ch n = n\<lparr>blockCh := Some ch\<rparr>"

definition SendBlockLatenciesTo :: "chan \<Rightarrow> Node \<Rightarrow> Node" where
  "SendBlockLatenciesTo ch n = n\<lparr>blockLatencyCh := Some ch\<rparr>"

definition NotifyAboutDisconnects :: "chan \<Rightarrow> Node \<Rightarrow> Node" where
  "NotifyAboutDisconnects ch n = n\<lparr>disconnectCh := Some ch\<rparr>"

text \<open>
  \<^verbatim>\<open>validators()\<close> and \<^verbatim>\<open>NumValidators()\<close> read nothing of the node but its RPC
  client, whose answer is in the world; they return the triple
  \<^verbatim>\<open>(height, validators or num, err)\<close> as Go does.
\<close>

definition Node_validators :: "world \<Rightarrow> 64 word \<times> Validator list \<times> error option" where
  "Node_validators w =
     (case rpcValidators w of
        Inl err \<Rightarrow> (0, [], Some err)
      | Inr vals \<Rightarrow> (uint64 (BlockHeight vals), Validators vals, None))"

definition Node_NumValidators :: "world \<Rightarrow> 64 word \<times> int \<times> error option" where
  "Node_NumValidators w =
     (let (height, vals, err) = Node_validators w
      in if err \<noteq> None then (0, 0, err) else (height, int (length vals), None))"

text \<open>
  \<^verbatim>\<open>getPubKey\<close>: the cached key if there is one, else a \<^verbatim>\<open>"status"\<close> query, whose
  key is cached. \<open>k\<close> counts the status queries made so far in the operation.
\<close>

definition Node_getPubKey :: "world \<Rightarrow> nat \<Rightarrow> Node \<Rightarrow> (PubKey \<times> error option) \<times> Node \<times> nat" where
  "Node_getPubKey w k n =
     (if pubKey n \<noteq> None then ((pubKey n, None), n, k)
      else case rpcStatus w k of
             Inl err \<Rightarrow> ((None, Some err), n, Suc k)
           | Inr status \<Rightarrow> ((status_PubKey status, None), n\<lparr>pubKey := status_PubKey status\<rparr>, Suc k))"

text \<open>The \<^verbatim>\<open>for _, v := range validators\<close> of \<^verbatim>\<open>checkIsValidator\<close>.\<close>

fun checkIsValidator_range :: "world \<Rightarrow> Validator list \<Rightarrow> nat \<Rightarrow> Node \<Rightarrow> Node \<times> nat" where
  "checkIsValidator_range w [] k n = (n, k)"
| "checkIsValidator_range w (v # vs) k n =
     (let ((key, err), n1, k1) = Node_getPubKey w k n;
          n2 = (if err = None \<and> val_PubKey v = key then n1\<lparr>IsValidator := True\<rparr> else n1)
      in checkIsValidator_range w vs k1 n2)"

definition Node_checkIsValidator :: "world \<Rightarrow> Node \<Rightarrow> Node" where
  "Node_checkIsValidator w n =
     (let (_, validators, err) = Node_validators w
      in if err = None then fst (checkIsValidator_range w validators 0 n) else n)"

definition Node_Start :: "world \<Rightarrow> Node \<Rightarrow> error option \<times> Node \<times> effect list" where
  "Node_Start w n =
     (case emStart w 0 of
        Some err \<Rightarrow> (Some err, n, [EmStart])
      | None \<Rightarrow>
          (case emSubscribe w of
             Some err \<Rightarrow> (Some err, n, [EmStart, EmRegisterLatencyCallback, EmSubscribe])
           | None \<Rightarrow>
               let n1 = n\<lparr>Online := True\<rparr>;
                   n2 = Node_checkIsValidator w n1
               in (None, n2, [EmStart, EmRegisterLatencyCallback, EmSubscribe,
                     EmRegisterDisconnectCallback, GoCheckIsValidatorLoop])))"

text \<open>\<^verbatim>\<open>close(n.quit)\<close> panics when the channel is closed already.\<close>

definition Node_Stop :: "Node \<Rightarrow> panic option \<times> Node \<times> effect list" where
  "Node_Stop n =
     (let n1 = n\<lparr>Online := False\<rparr>
      in if quit_closed n1 then (Some CloseOfClosedChannel, n1, [EmStop])
         else (None, n1\<lparr>quit_closed := True\<rparr>, [EmStop]))"

definition newBlockCallback :: "EventData \<Rightarrow> Node \<Rightarrow> panic option \<times> Node \<times> effect list" where
  "newBlockCallback data n =
     (case data of
        EventDataOther \<Rightarrow> (Some InterfaceConversion, n, [])
      | EventDataNewBlockHeader block \<Rightarrow>
          let n1 = n\<lparr>Height := uint64 (hdr_Height block)\<rparr>
          in (None, n1, case blockCh n1 of None \<Rightarrow> [] | Some ch \<Rightarrow> [SendBlock ch block]))"

definition latencyCallback :: "real \<Rightarrow> Node \<Rightarrow> Node \<times> effect list" where
  "latencyCallback latency n =
     (let n1 = n\<lparr>BlockLatency := latency / 1000000\<rparr>
      in (n1, case blockLatencyCh n1 of None \<Rightarrow> [] | Some ch \<Rightarrow> [SendBlockLatency ch latency]))"

text \<open>
  \<^verbatim>\<open>RestartEventMeterBackoff\<close>: the loop, from \<^verbatim>\<open>attempt\<close>. Each round makes one
  \<^verbatim>\<open>em.Start()\<close>, so the round of \<^verbatim>\<open>attempt\<close> is answered by \<open>emStart w attempt\<close>.
  \<^verbatim>\<open>time.Duration(math.Exp2(float64(attempt)))\<close> is the integer \<open>2 ^ attempt\<close>, and its
  product with \<^verbatim>\<open>time.Second\<close> stays below \<open>2 ^ 63\<close> for every attempt the loop
  reaches (lemma \<open>backoff_sleeps_in_range\<close>).
\<close>

function RestartEventMeterBackoff_from :: "world \<Rightarrow> nat \<Rightarrow> error option \<times> effect list" where
  "RestartEventMeterBackoff_from w attempt =
     (let d = (2 :: int) ^ attempt;
          this_round = [Sleep (d * Second), EmStart]
      in case emStart w attempt of
           None \<Rightarrow> (None, this_round)
         | Some err \<Rightarrow>
             if attempt + 1 > maxRestarts then (Some (Err ''Reached max restarts''), this_round)
             else (let (r, rest) = RestartEventMeterBackoff_from w (attempt + 1)
                   in (r, this_round @ rest)))"
  by pat_completeness auto
termination
  by (relation "measure (\<lambda>(w, attempt). Suc maxRestarts - attempt)") auto

definition RestartEventMeterBackoff :: "world \<Rightarrow> error option \<times> effect list" where
  "RestartEventMeterBackoff w = RestartEventMeterBackoff_from w 0"

definition disconnectCallback :: "world \<Rightarrow> Node \<Rightarrow> Node \<times> effect list" where
  "disconnectCallback w n =
     (let n1 = n\<lparr>Online := False\<rparr>;
          down = (case disconnectCh n1 of None \<Rightarrow> [] | Some ch \<Rightarrow> [SendDisconnect ch True]);
          (err, restart) = RestartEventMeterBackoff w
      in case err of
           Some e \<Rightarrow> (n1, down @ restart)
         | None \<Rightarrow>
             (n1\<lparr>Online := True\<rparr>,
              down @ restart @
                (case disconnectCh n1 of None \<Rightarrow> [] | Some ch \<Rightarrow> [SendDisconnect ch False])))"

text \<open>
  Everything that can happen to a node: its methods, and the three callbacks the event
  meter invokes. \<open>Node_run\<close> applies a sequence and stops at the first panic, with the
  node as the panic left it.
\<close>

datatype node_op =
    OpSetCheckIsValidatorInterval int
  | OpSendBlocksTo chan | OpSendBlockLatenciesTo chan | OpNotifyAboutDisconnects chan
  | OpStart world | OpStop
  | OpNewBlock EventData | OpLatency real | OpDisconnect world
  | OpRestartEventMeterBackoff world
  | OpNumValidators world | OpValidators world
  | OpCheckIsValidator world | OpGetPubKey world

fun Node_apply :: "node_op \<Rightarrow> Node \<Rightarrow> panic option \<times> Node \<times> effect list" where
  "Node_apply (OpSetCheckIsValidatorInterval d) n = (None, SetCheckIsValidatorInterval d n, [])"
| "Node_apply (OpSendBlocksTo ch) n = (None, SendBlocksTo ch n, [])"
| "Node_apply (OpSendBlockLatenciesTo ch) n = (None, SendBlockLatenciesTo ch n, [])"
| "Node_apply (OpNotifyAboutDisconnects ch) n = (None, NotifyAboutDisconnects ch n, [])"
| "Node_apply (OpStart w) n = (let (err, n', tr) = Node_Start w n in (None, n', tr))"
| "Node_apply OpStop n = Node_Stop n"
| "Node_apply (OpNewBlock data) n = newBlockCallback data n"
| "Node_apply (OpLatency latency) n = (let (n', tr) = latencyCallback latency n in (None, n', tr))"
| "Node_apply (OpDisconnect w) n = (let (n', tr) = disconnectCallback w n in (None, n', tr))"
| "Node_apply (OpRestartEventMeterBackoff w) n = (None, n, snd (RestartEventMeterBackoff w))"
| "Node_apply (OpNumValidators w) n = (None, n, [])"
| "Node_apply (OpValidators w) n = (None, n, [])"
| "Node_apply (OpCheckIsValidator w) n = (None, Node_checkIsValidator w n, [])"
| "Node_apply (OpGetPubKey w) n = (None, fst (snd (Node_getPubKey w 0 n)), [])"

fun Node_run :: "node_op list \<Rightarrow> Node \<Rightarrow> panic option \<times> Node \<times> effect list" where
  "Node_run [] n = (None, n, [])"
| "Node_run (op # ops) n =
     (case Node_apply op n of
        (Some p, n', tr) \<Rightarrow> (Some p, n', tr)
      | (None, n', tr) \<Rightarrow> (let (p, n'', tr') = Node_run ops n' in (p, n'', tr @ tr')))"

section \<open>Network\<close>

text \<open>
  Modelled from the spec: the \<^verbatim>\<open>Network\<close> struct and its methods are not among the
  sources; only the fields \<^verbatim>\<open>Height\<close> (a \<^verbatim>\<open>uint64\<close>) and
  \<^verbatim>\<open>NumValidators\<close> (an \<^verbatim>\<open>int\<close>) are read and written by the monitor's own
  code. The spec gives Network "a mapping from node name to per-node status record
  (online flag ...)" and the global fields height and validator count.
\<close>

record Network =
  Network_Height :: "64 word"
  NumValidators :: int
  nodeStatus :: "string \<rightharpoonup> bool"
  blockLatencies :: "real list"

text \<open>Modelled from the spec: \<^verbatim>\<open>NewNetwork\<close>, the aggregate before any node or block.\<close>

definition NewNetwork :: Network where
  "NewNetwork = \<lparr>Network_Height = 0, NumValidators = 0, nodeStatus = Map.empty, blockLatencies = []\<rparr>"

text \<open>
  Modelled from the spec: \<^verbatim>\<open>Network.NewNode\<close>, "admit a node (create status entry,
  default offline)".
\<close>

definition Network_NewNode :: "string \<Rightarrow> Network \<Rightarrow> Network" where
  "Network_NewNode name nw = nw\<lparr>nodeStatus := (nodeStatus nw)(name \<mapsto> False)\<rparr>"

text \<open>Modelled from the spec: \<^verbatim>\<open>Network.NodeDeleted\<close>, "remove a node (delete entry)".\<close>

definition Network_NodeDeleted :: "string \<Rightarrow> Network \<Rightarrow> Network" where
  "Network_NodeDeleted name nw = nw\<lparr>nodeStatus := (nodeStatus nw)(name := None)\<rparr>"

text \<open>
  Modelled from the spec: \<^verbatim>\<open>Network.NodeIsOnline\<close>, "mark a node online". Entries
  are "created on admission and deleted on removal", so marking a name that has no
  entry creates none.
\<close>

definition Network_NodeIsOnline :: "string \<Rightarrow> Network \<Rightarrow> Network" where
  "Network_NodeIsOnline name nw =
     (case nodeStatus nw name of
        None \<Rightarrow> nw
      | Some _ \<Rightarrow> nw\<lparr>nodeStatus := (nodeStatus nw)(name \<mapsto> True)\<rparr>)"

text \<open>
  Modelled from the spec: \<^verbatim>\<open>Network.NodeIsDown\<close>, "mark a node down", of a name
  that has an entry.
\<close>

definition Network_NodeIsDown :: "string \<Rightarrow> Network \<Rightarrow> Network" where
  "Network_NodeIsDown name nw =
     (case nodeStatus nw name of
        None \<Rightarrow> nw
      | Some _ \<Rightarrow> nw\<lparr>nodeStatus := (nodeStatus nw)(name \<mapsto> False)\<rparr>)"

text \<open>
  Modelled from the spec: \<^verbatim>\<open>Network.NewBlock\<close>, "ingest a new block (advance global
  height to the max of current and incoming -- never regresses)". The incoming height
  is the header's, as a \<^verbatim>\<open>uint64\<close>.
\<close>

definition Network_NewBlock :: "Header \<Rightarrow> Network \<Rightarrow> Network" where
  "Network_NewBlock b nw = nw\<lparr>Network_Height := max (Network_Height nw) (uint64 (hdr_Height b))\<rparr>"

text \<open>Modelled from the spec: \<^verbatim>\<open>Network.NewBlockLatency\<close>, "ingest a latency sample".\<close>

definition Network_NewBlockLatency :: "real \<Rightarrow> Network \<Rightarrow> Network" where
  "Network_NewBlockLatency l nw = nw\<lparr>blockLatencies := blockLatencies nw @ [l]\<rparr>"

section \<open>Monitor\<close>

text \<open>
  \<^verbatim>\<open>Nodes\<close> is a slice of pointers; the model holds each node by value, as the
  operation that added it left it. What the monitor reads of a tracked node is its
  \<^verbatim>\<open>Name\<close>, which no operation on a node changes (lemma \<open>Node_apply_Name\<close>).
  \<open>nextChan\<close> is not a field of the struct: it numbers the channels that
  \<^verbatim>\<open>make\<close> has handed out, so that each new one is fresh. The goroutines an
  operation starts are among its effects; the listener and one round of the
  validator-refresh loop are functions of their own below.
\<close>

record Monitor =
  Nodes :: "Node list"
  Network :: Network
  monitorQuit_closed :: bool
  nodeQuit :: "string \<rightharpoonup> chan"
  nextChan :: nat

definition NewMonitor :: Monitor where
  "NewMonitor =
     \<lparr>Nodes = [], Network = NewNetwork, monitorQuit_closed = False, nodeQuit = Map.empty,
      nextChan = 0\<rparr>"

text \<open>
  \<^verbatim>\<open>Monitor.Monitor\<close>. The append to \<^verbatim>\<open>m.Nodes\<close> is the first statement and
  stands whether or not \<^verbatim>\<open>n.Start()\<close> succeeds; the Network entry, the
  \<^verbatim>\<open>nodeQuit\<close> entry and the listener come after the early return.
\<close>

definition Monitor_Monitor :: "world \<Rightarrow> Node \<Rightarrow> Monitor \<Rightarrow> error option \<times> Monitor \<times> effect list" where
  "Monitor_Monitor w n m =
     (let blockCh' = nextChan m;
          blockLatencyCh' = nextChan m + 1;
          disconnectCh' = nextChan m + 2;
          n1 = NotifyAboutDisconnects disconnectCh'
                 (SendBlockLatenciesTo blockLatencyCh' (SendBlocksTo blockCh' n));
          (err, n2, tr) = Node_Start w n1;
          m1 = m\<lparr>Nodes := Nodes m @ [n2], nextChan := nextChan m + 3\<rparr>
      in case err of
           Some e \<Rightarrow> (Some e, m1, tr)
         | None \<Rightarrow>
             let m2 = m1\<lparr>Network := Network_NewNode (Name n2) (Network m1)\<rparr>;
                 q = nextChan m2;
                 m3 = m2\<lparr>nodeQuit := (nodeQuit m2)(Name n2 \<mapsto> q), nextChan := q + 1\<rparr>
             in (None, m3, tr @ [GoListen (Name n2) blockCh' blockLatencyCh' disconnectCh' q]))"

text \<open>
  \<^verbatim>\<open>NodeByName\<close>: the index and the node of the first tracked node of that name, or
  \<^verbatim>\<open>(-1, nil)\<close>.
\<close>

fun NodeByName_range :: "string \<Rightarrow> Node list \<Rightarrow> int \<Rightarrow> int \<times> Node option" where
  "NodeByName_range name [] i = (- 1, None)"
| "NodeByName_range name (n # ns) i =
     (if name = Name n then (i, Some n) else NodeByName_range name ns (i + 1))"

definition Monitor_NodeByName :: "string \<Rightarrow> Monitor \<Rightarrow> int \<times> Node option" where
  "Monitor_NodeByName name m = NodeByName_range name (Nodes m) 0"

text \<open>
  \<^verbatim>\<open>Monitor.Unmonitor\<close>. \<^verbatim>\<open>close(m.nodeQuit[n.Name])\<close> panics when the map has no
  such key (the channel read is nil), and \<^verbatim>\<open>m.Nodes[i]\<close> panics at the index
  \<^verbatim>\<open>-1\<close> of an absent name. The result is the monitor as the panic left it.
\<close>

definition Monitor_Unmonitor :: "Node \<Rightarrow> Monitor \<Rightarrow> panic option \<times> Monitor \<times> effect list" where
  "Monitor_Unmonitor n m =
     (let m1 = m\<lparr>Network := Network_NodeDeleted (Name n) (Network m)\<rparr>;
          (p, n1, tr) = Node_Stop n
      in case p of
           Some pn \<Rightarrow> (Some pn, m1, tr)
         | None \<Rightarrow>
             (case nodeQuit m1 (Name n1) of
                None \<Rightarrow> (Some CloseOfNilChannel, m1, tr)
              | Some q \<Rightarrow>
                  let m2 = m1\<lparr>nodeQuit := (nodeQuit m1)(Name n1 := None)\<rparr>;
                      (i, _) = Monitor_NodeByName (Name n1) m2
                  in if i < 0 \<or> int (length (Nodes m2)) \<le> i
                     then (Some IndexOutOfRange, m2, tr @ [Close q])
                     else
                       (None,
                        m2\<lparr>Nodes := butlast ((Nodes m2)[nat i := last (Nodes m2)])\<rparr>,
                        tr @ [Close q])))"


datatype select_case =
    Quit | BlockCh Header | BlockLatencyCh real | DisconnectCh bool | LivenessTimeout

datatype listen_state = Returned Network | Waiting Network

fun net_of :: "listen_state \<Rightarrow> Network" where
  "net_of (Returned nw) = nw"
| "net_of (Waiting nw) = nw"

fun Monitor_listen :: "string \<Rightarrow> select_case list \<Rightarrow> Network \<Rightarrow> listen_state" where
  "Monitor_listen nodeName [] nw = Waiting nw"
| "Monitor_listen nodeName (Quit # cs) nw = Returned nw"
| "Monitor_listen nodeName (BlockCh b # cs) nw =
     Monitor_listen nodeName cs (Network_NodeIsOnline nodeName (Network_NewBlock b nw))"
| "Monitor_listen nodeName (BlockLatencyCh l # cs) nw =
     Monitor_listen nodeName cs (Network_NodeIsOnline nodeName (Network_NewBlockLatency l nw))"
| "Monitor_listen nodeName (DisconnectCh disconnected # cs) nw =
     Monitor_listen nodeName cs
       (if disconnected then Network_NodeIsDown nodeName nw else Network_NodeIsOnline nodeName nw)"
| "Monitor_listen nodeName (LivenessTimeout # cs) nw =
     Monitor_listen nodeName cs (Network_NodeIsDown nodeName nw)"


text \<open>
  One round of \<^verbatim>\<open>updateNumValidatorLoop\<close> after its timer has fired, with a
  non-empty \<^verbatim>\<open>m.Nodes\<close>. The variables \<^verbatim>\<open>height, num, err\<close> are declared
  before the loop and keep their values from round to round; \<^verbatim>\<open>randomNodeIndex\<close>
  was drawn before the wait. The \<^verbatim>\<open>for ... range\<close> queries the node at that index,
  if the slice still has one; \<open>w\<close> is that node's world.
\<close>

record loop_vars =
  lv_height :: "64 word"
  lv_num :: int
  lv_err :: "error option"

definition loop_vars0 :: loop_vars where
  "loop_vars0 = \<lparr>lv_height = 0, lv_num = 0, lv_err = None\<rparr>"

definition updateNumValidator_round ::
  "world \<Rightarrow> nat \<Rightarrow> loop_vars \<Rightarrow> Monitor \<Rightarrow> loop_vars \<times> Monitor"
where
  "updateNumValidator_round w randomNodeIndex vars m =
     (let vars' =
            (if randomNodeIndex < length (Nodes m)
             then (let (height, num, err) = Node_NumValidators w
                   in \<lparr>lv_height = height, lv_num = num, lv_err = err\<rparr>)
             else vars)
      in if Network_Height (Network m) \<le> lv_height vars'
         then (vars', m\<lparr>Network := (Network m)\<lparr>NumValidators := lv_num vars'\<rparr>\<rparr>)
         else (vars', m))"

text \<open>
  Sequences of \<^verbatim>\<open>Monitor(n)\<close> and \<^verbatim>\<open>Unmonitor(n)\<close> calls. The run stops at the
  first panic. \<open>tracked\<close> is the list of the names of the tracked nodes.
\<close>

datatype monitor_op = OpMonitor world Node | OpUnmonitor Node

fun Monitor_apply :: "monitor_op \<Rightarrow> Monitor \<Rightarrow> panic option \<times> Monitor" where
  "Monitor_apply (OpMonitor w n) m = (None, fst (snd (Monitor_Monitor w n m)))"
| "Monitor_apply (OpUnmonitor n) m = (case Monitor_Unmonitor n m of (p, m', tr) \<Rightarrow> (p, m'))"

fun Monitor_run :: "monitor_op list \<Rightarrow> Monitor \<Rightarrow> panic option \<times> Monitor" where
  "Monitor_run [] m = (None, m)"
| "Monitor_run (op # ops) m =
     (case Monitor_apply op m of
        (Some p, m') \<Rightarrow> (Some p, m')
      | (None, m') \<Rightarrow> Monitor_run ops m')"

definition tracked :: "Monitor \<Rightarrow> string list" where
  "tracked m = map Name (Nodes m)"

text \<open>
  The sequences in which every admitted node has a name that is not tracked and
  starts, and every removed node is tracked and has not been stopped before.
\<close>

fun admissible :: "monitor_op list \<Rightarrow> Monitor \<Rightarrow> bool" where
  "admissible [] m = True"
| "admissible (OpMonitor w n # ops) m =
     (Name n \<notin> set (tracked m) \<and> fst (Node_Start w n) = None
      \<and> admissible ops (snd (Monitor_apply (OpMonitor w n) m)))"
| "admissible (OpUnmonitor n # ops) m =
     (Name n \<in> set (tracked m) \<and> \<not> quit_closed n
      \<and> admissible ops (snd (Monitor_apply (OpUnmonitor n) m)))"

text \<open>
  The correspondence: the tracked names are pairwise distinct, and they are the names
  with a Network entry and the names with a quit channel.
\<close>

definition in_step :: "Monitor \<Rightarrow> bool" where
  "in_step m \<longleftrightarrow>
     distinct (tracked m)
     \<and> set (tracked m) = dom (nodeStatus (Network m))
     \<and> set (tracked m) = dom (nodeQuit m)"

section \<open>Concrete worlds and inputs\<close>

text \<open>
  The inputs at which the theorems below are instantiated: a world in which every call
  succeeds and the node's key \<open>[2]\<close> is the second of two validators at height 7, a
  world in which every call fails, and one in which the event meter starts again at its
  26th call only.
\<close>

definition two_validators :: ResultValidators where
  "two_validators =
     \<lparr>BlockHeight = 7,
      Validators = [\<lparr>val_PubKey = Some [1], val_VotingPower = 10\<rparr>,
                    \<lparr>val_PubKey = Some [2], val_VotingPower = 10\<rparr>]\<rparr>"

definition w_ok :: world where
  "w_ok =
     \<lparr>emStart = (\<lambda>k. None), emSubscribe = None, rpcValidators = Inr two_validators,
      rpcStatus = (\<lambda>k. Inr \<lparr>status_PubKey = Some [2]\<rparr>)\<rparr>"

definition w_down :: world where
  "w_down =
     \<lparr>emStart = (\<lambda>k. Some (Err ''connection refused'')), emSubscribe = None,
      rpcValidators = Inl (Err ''connection refused''),
      rpcStatus = (\<lambda>k. Inl (Err ''connection refused''))\<rparr>"

definition w_up_at_25 :: world where
  "w_up_at_25 =
     w_down\<lparr>emStart := (\<lambda>k. if k < 25 then Some (Err ''connection refused'') else None)\<rparr>"

text \<open>
  A world whose validator set, at height 9, holds the key \<open>[1]\<close> only, and one whose
  event meter works while its RPC client fails.
\<close>

definition w_other :: world where
  "w_other =
     w_ok\<lparr>rpcValidators :=
       Inr \<lparr>BlockHeight = 9, Validators = [\<lparr>val_PubKey = Some [1], val_VotingPower = 10\<rparr>]\<rparr>\<rparr>"

definition w_rpc_down :: world where
  "w_rpc_down = w_ok\<lparr>rpcValidators := Inl (Err ''timeout'')\<rparr>"

text \<open>
  A world whose validator set holds the node's key \<open>[2]\<close> first and the key \<open>[1]\<close>
  second, and whose first "status" query fails while the later ones answer \<open>[2]\<close>.
\<close>

definition w_flaky :: world where
  "w_flaky =
     w_ok\<lparr>rpcValidators :=
            Inr \<lparr>BlockHeight = 7,
                 Validators = [\<lparr>val_PubKey = Some [2], val_VotingPower = 10\<rparr>,
                               \<lparr>val_PubKey = Some [1], val_VotingPower = 10\<rparr>]\<rparr>,
          rpcStatus :=
            (\<lambda>k. if k = 0 then Inl (Err ''timeout'') else Inr \<lparr>status_PubKey = Some [2]\<rparr>)\<rparr>"

text \<open>The rounds of the backoff from attempt \<open>i\<close> up to, not including, attempt \<open>j\<close>.\<close>

definition backoff_rounds :: "nat \<Rightarrow> nat \<Rightarrow> effect list" where
  "backoff_rounds i j = concat (map (\<lambda>k. [Sleep (2 ^ k * Second), EmStart]) [i..<j])"

text \<open>
  Sequences of monitor operations: three nodes admitted and the second removed; and two
  nodes of one name admitted, then one removed. The node of an \<open>OpUnmonitor\<close> is the
  caller's, by value; \<open>Unmonitor\<close> reads its name and stops it. A Network with the one
  entry \<open>A\<close>, and a header of height 100.
\<close>

definition ops_remove_B :: "monitor_op list" where
  "ops_remove_B =
     [OpMonitor w_ok (NewNode ''A''), OpMonitor w_ok (NewNode ''B''),
      OpMonitor w_ok (NewNode ''C''), OpUnmonitor (NewNode ''B'')]"

definition ops_same_name :: "monitor_op list" where
  "ops_same_name =
     [OpMonitor w_ok (NewNode ''A''), OpMonitor w_ok (NewNode ''A''),
      OpUnmonitor (NewNode ''A'')]"



text \<open>A monitor that tracks the one node \<open>A\<close>, before any block has been ingested.\<close>

definition monitor_A :: Monitor where
  "monitor_A = fst (snd (Monitor_Monitor w_ok (NewNode ''A'') NewMonitor))"

section \<open>Theorems: the checksum utility\<close>

lemma Uint32_PutUint32: "Uint32 (PutUint32 v) = v"
proof (rule bit_word_eqI)
  fix n assume n: "n < LENGTH(32)"
  consider "n < 8" | "8 \<le> n" "n < 16" | "16 \<le> n" "n < 24" | "24 \<le> n" "n < 32"
    using n by fastforce
  then show "bit (Uint32 (PutUint32 v)) n = bit v n"
    by cases (auto simp add: Uint32_def PutUint32_def bit_simps)
qed

lemma Uint64_PutUint64: "Uint64 (PutUint64 v) = v"
proof (rule bit_word_eqI)
  fix n assume n: "n < LENGTH(64)"
  consider "n < 8" | "8 \<le> n" "n < 16" | "16 \<le> n" "n < 24" | "24 \<le> n" "n < 32"
    | "32 \<le> n" "n < 40" | "40 \<le> n" "n < 48" | "48 \<le> n" "n < 56" | "56 \<le> n" "n < 64"
    using n by fastforce
  then show "bit (Uint64 (PutUint64 v)) n = bit v n"
    by cases (auto simp add: Uint64_def PutUint64_def bit_simps)
qed

lemma length_PutUint32: "length (PutUint32 v) = 4"
  by (simp add: PutUint32_def)

lemma length_PutUint64: "length (PutUint64 v) = 8"
  by (simp add: PutUint64_def)

lemma CRC32_getTable_idem:
  "CRC32_getTable mk c = (t, c') \<Longrightarrow> CRC32_getTable mk c' = (t, c')"
  by (auto simp: CRC32_getTable_def Let_def split: option.splits if_splits)

lemma CRC64_getTable_idem:
  "CRC64_getTable mk c = (t, c') \<Longrightarrow> CRC64_getTable mk c' = (t, c')"
  by (auto simp: CRC64_getTable_def Let_def split: option.splits if_splits)

lemma CRC32_roundtrip:
  assumes "input \<noteq> []"
  shows "CRC32_CheckECC mk cs (snd (CRC32_AddECC mk cs c input)) (fst (CRC32_AddECC mk cs c input))
           = (Inr input, snd (CRC32_AddECC mk cs c input))"
proof -
  obtain t c' where g: "CRC32_getTable mk c = (t, c')"
    by (cases "CRC32_getTable mk c")
  have g': "CRC32_getTable mk c' = (t, c')"
    using g by (rule CRC32_getTable_idem)
  have a: "CRC32_AddECC mk cs c input = (input @ PutUint32 (cs input t), c')"
    by (simp add: CRC32_AddECC_def g)
  from assms have "length input > 0" by simp
  then show ?thesis
    by (simp add: a CRC32_CheckECC_def g' crc32_Size_def length_PutUint32 Uint32_PutUint32)
qed

lemma CRC64_roundtrip:
  assumes "input \<noteq> []"
  shows "CRC64_CheckECC mk cs (snd (CRC64_AddECC mk cs c input)) (fst (CRC64_AddECC mk cs c input))
           = (Inr input, snd (CRC64_AddECC mk cs c input))"
proof -
  obtain t c' where g: "CRC64_getTable mk c = (t, c')"
    by (cases "CRC64_getTable mk c")
  have g': "CRC64_getTable mk c' = (t, c')"
    using g by (rule CRC64_getTable_idem)
  have a: "CRC64_AddECC mk cs c input = (input @ PutUint64 (cs input t), c')"
    by (simp add: CRC64_AddECC_def g)
  from assms have "length input > 0" by simp
  then show ?thesis
    by (simp add: a CRC64_CheckECC_def g' crc64_Size_def length_PutUint64 Uint64_PutUint64)
qed

lemma length_CRC32_AddECC: "length (fst (CRC32_AddECC mk cs c input)) = length input + 4"
  by (simp add: CRC32_AddECC_def Let_def length_PutUint32 split: prod.splits)

lemma length_CRC64_AddECC: "length (fst (CRC64_AddECC mk cs c input)) = length input + 8"
  by (simp add: CRC64_AddECC_def Let_def length_PutUint64 split: prod.splits)

text \<open>
  C10, as amended: \<open>NoECC\<close> returns every input; \<open>CRC32\<close> and \<open>CRC64\<close>, with any
  polynomial and any table state, append 4 and 8 bytes, the big-endian checksum, and
  \<open>CheckECC\<close> of the result gives back the input with no error whenever the input is
  not empty. For the empty input, \<open>CheckECC\<close> of the result is the error "input too
  short, no checksum present", again with any polynomial and any table state. All of
  this holds for every checksum function.
\<close>

theorem ECC_roundtrip:
  "NoECC_CheckECC (NoECC_AddECC b) = Inr b
   \<and> fst (CRC32_AddECC mk32 cs32 c32 b) = b @ PutUint32 (cs32 b (fst (CRC32_getTable mk32 c32)))
   \<and> length (fst (CRC32_AddECC mk32 cs32 c32 b)) = length b + 4
   \<and> (b \<noteq> [] \<longrightarrow>
        fst (CRC32_CheckECC mk32 cs32 (snd (CRC32_AddECC mk32 cs32 c32 b))
              (fst (CRC32_AddECC mk32 cs32 c32 b))) = Inr b)
   \<and> fst (CRC64_AddECC mk64 cs64 c64 b) = b @ PutUint64 (cs64 b (fst (CRC64_getTable mk64 c64)))
   \<and> length (fst (CRC64_AddECC mk64 cs64 c64 b)) = length b + 8
   \<and> (b \<noteq> [] \<longrightarrow>
        fst (CRC64_CheckECC mk64 cs64 (snd (CRC64_AddECC mk64 cs64 c64 b))
              (fst (CRC64_AddECC mk64 cs64 c64 b))) = Inr b)
   \<and> fst (CRC32_CheckECC mk32 cs32 (snd (CRC32_AddECC mk32 cs32 c32 []))
            (fst (CRC32_AddECC mk32 cs32 c32 [])))
       = Inl (Err ''input too short, no checksum present'')
   \<and> fst (CRC64_CheckECC mk64 cs64 (snd (CRC64_AddECC mk64 cs64 c64 []))
            (fst (CRC64_AddECC mk64 cs64 c64 [])))
       = Inl (Err ''input too short, no checksum present'')"
proof -
  have e32: "fst (CRC32_CheckECC mk32 cs32 (snd (CRC32_AddECC mk32 cs32 c32 []))
            (fst (CRC32_AddECC mk32 cs32 c32 [])))
       = Inl (Err ''input too short, no checksum present'')"
    by (simp add: CRC32_CheckECC_def CRC32_AddECC_def split_beta length_PutUint32 crc32_Size_def)
  have e64: "fst (CRC64_CheckECC mk64 cs64 (snd (CRC64_AddECC mk64 cs64 c64 []))
            (fst (CRC64_AddECC mk64 cs64 c64 [])))
       = Inl (Err ''input too short, no checksum present'')"
    by (simp add: CRC64_CheckECC_def CRC64_AddECC_def split_beta length_PutUint64 crc64_Size_def)
  have n: "NoECC_CheckECC (NoECC_AddECC b) = Inr b"
    by (simp add: NoECC_CheckECC_def NoECC_AddECC_def)
  have a32: "fst (CRC32_AddECC mk32 cs32 c32 b) = b @ PutUint32 (cs32 b (fst (CRC32_getTable mk32 c32)))"
    by (simp add: CRC32_AddECC_def split_beta)
  have a64: "fst (CRC64_AddECC mk64 cs64 c64 b) = b @ PutUint64 (cs64 b (fst (CRC64_getTable mk64 c64)))"
    by (simp add: CRC64_AddECC_def split_beta)
  have r: "NoECC_CheckECC (NoECC_AddECC b) = Inr b
   \<and> fst (CRC32_AddECC mk32 cs32 c32 b) = b @ PutUint32 (cs32 b (fst (CRC32_getTable mk32 c32)))
   \<and> length (fst (CRC32_AddECC mk32 cs32 c32 b)) = length b + 4
   \<and> (b \<noteq> [] \<longrightarrow>
        fst (CRC32_CheckECC mk32 cs32 (snd (CRC32_AddECC mk32 cs32 c32 b))
              (fst (CRC32_AddECC mk32 cs32 c32 b))) = Inr b)
   \<and> fst (CRC64_AddECC mk64 cs64 c64 b) = b @ PutUint64 (cs64 b (fst (CRC64_getTable mk64 c64)))
   \<and> length (fst (CRC64_AddECC mk64 cs64 c64 b)) = length b + 8
   \<and> (b \<noteq> [] \<longrightarrow>
        fst (CRC64_CheckECC mk64 cs64 (snd (CRC64_AddECC mk64 cs64 c64 b))
              (fst (CRC64_AddECC mk64 cs64 c64 b))) = Inr b)"
    using n a32 a64 CRC32_roundtrip [of b mk32 cs32 c32] CRC64_roundtrip [of b mk64 cs64 c64]
    by (simp add: length_PutUint32 length_PutUint64)
  from r e32 e64 show ?thesis
    by blast
qed

theorem ECC_roundtrip_witness:
  "[0x61 :: byte] \<noteq> []
   \<and> fst (CRC32_CheckECC crc_MakeTable crc_Checksum
            (snd (CRC32_AddECC crc_MakeTable crc_Checksum \<lparr>Poly = 0, table = None\<rparr> [0x61]))
            (fst (CRC32_AddECC crc_MakeTable crc_Checksum \<lparr>Poly = 0, table = None\<rparr> [0x61])))
       = Inr [0x61]
   \<and> fst (CRC64_CheckECC crc_MakeTable crc_Checksum
            (snd (CRC64_AddECC crc_MakeTable crc_Checksum NewECMACRC64 [0x61]))
            (fst (CRC64_AddECC crc_MakeTable crc_Checksum NewECMACRC64 [0x61])))
       = Inr [0x61]"
proof -
  have ne: "[0x61 :: byte] \<noteq> []"
    by simp
  with ECC_roundtrip [of "[0x61]" crc_MakeTable crc_Checksum "\<lparr>Poly = 0, table = None\<rparr>"
      crc_MakeTable crc_Checksum NewECMACRC64]
  show ?thesis
    by blast
qed

text \<open>
  C10 as stated fails at the empty input: the four checksum bytes alone are not longer
  than \<^verbatim>\<open>crc32.Size\<close>, so \<open>CheckECC\<close> answers "input too short"; the same at eight
  bytes for \<open>CRC64\<close>.
\<close>

theorem ECC_roundtrip_counterexample:
  "fst (CRC32_CheckECC crc_MakeTable crc_Checksum
          (snd (CRC32_AddECC crc_MakeTable crc_Checksum NewIEEECRC32 []))
          (fst (CRC32_AddECC crc_MakeTable crc_Checksum NewIEEECRC32 [])))
     = Inl (Err ''input too short, no checksum present'')
   \<and> fst (CRC64_CheckECC crc_MakeTable crc_Checksum
          (snd (CRC64_AddECC crc_MakeTable crc_Checksum NewISOCRC64 []))
          (fst (CRC64_AddECC crc_MakeTable crc_Checksum NewISOCRC64 [])))
     = Inl (Err ''input too short, no checksum present'')"
  by (simp add: CRC32_CheckECC_def CRC32_AddECC_def CRC64_CheckECC_def CRC64_AddECC_def
      split_beta length_PutUint32 length_PutUint64 crc32_Size_def crc64_Size_def)

section \<open>Theorems: Node\<close>

declare RestartEventMeterBackoff_from.simps [simp del]

text \<open>
  C9: on a successful "validators" query \<open>validators()\<close> returns the height, the
  validator list and no error, and \<open>NumValidators()\<close> the height, the length of the
  list and no error; on a failed query they return \<open>(0, [], err)\<close> and
  \<open>(0, 0, err)\<close>. \<open>NumValidators()\<close> succeeds exactly when \<open>validators()\<close> does.
\<close>

theorem validators_results:
  "(rpcValidators w = Inr vals \<longrightarrow>
      Node_validators w = (uint64 (BlockHeight vals), Validators vals, None)
      \<and> Node_NumValidators w = (uint64 (BlockHeight vals), int (length (Validators vals)), None))
   \<and> (rpcValidators w = Inl err \<longrightarrow>
      Node_validators w = (0, [], Some err) \<and> Node_NumValidators w = (0, 0, Some err))
   \<and> (snd (snd (Node_NumValidators w)) = None \<longleftrightarrow> snd (snd (Node_validators w)) = None)"
  by (cases "rpcValidators w") (simp_all add: Node_validators_def Node_NumValidators_def)

theorem validators_results_witness:
  "rpcValidators w_ok = Inr two_validators
   \<and> Node_validators w_ok = (7, Validators two_validators, None)
   \<and> Node_NumValidators w_ok = (7, 2, None)
   \<and> rpcValidators w_down = Inl (Err ''connection refused'')
   \<and> Node_validators w_down = (0, [], Some (Err ''connection refused''))
   \<and> Node_NumValidators w_down = (0, 0, Some (Err ''connection refused''))"
  using validators_results [of w_ok two_validators]
    validators_results [of w_down _ "Err ''connection refused''"]
  by (simp add: w_ok_def w_down_def two_validators_def uint64_def)

text \<open>
  C8, as amended: the latency callback stores the sample divided by 1,000,000 in
  \<open>BlockLatency\<close>, changes nothing else of the node, and sends the sample itself, in
  nanoseconds as it came, on the latency channel when one is bound (and nothing when
  none is).
\<close>

theorem latencyCallback_forwards_sample:
  "BlockLatency (fst (latencyCallback s n)) = s / 1000000
   \<and> fst (latencyCallback s n) = n\<lparr>BlockLatency := s / 1000000\<rparr>
   \<and> snd (latencyCallback s n) =
       (case blockLatencyCh n of None \<Rightarrow> [] | Some ch \<Rightarrow> [SendBlockLatency ch s])"
  by (simp add: latencyCallback_def Let_def)

text \<open>
  C8 as stated fails: for a sample of 2,000,000 ns the node caches 2 (ms), and what goes
  out on the channel is 2,000,000, not 2.
\<close>

theorem latencyCallback_counterexample:
  "BlockLatency (fst (latencyCallback 2000000 (SendBlockLatenciesTo 1 (NewNode ''A'')))) = 2
   \<and> snd (latencyCallback 2000000 (SendBlockLatenciesTo 1 (NewNode ''A'')))
       = [SendBlockLatency 1 2000000]
   \<and> snd (latencyCallback 2000000 (SendBlockLatenciesTo 1 (NewNode ''A'')))
       \<noteq> [SendBlockLatency 1 2]"
  by (simp add: latencyCallback_def Let_def SendBlockLatenciesTo_def NewNode_def)

lemma getPubKey_IsValidator:
  "IsValidator (fst (snd (Node_getPubKey w k n))) = IsValidator n"
  by (simp add: Node_getPubKey_def split: sum.splits)

lemma checkIsValidator_range_mono:
  "IsValidator n \<Longrightarrow> IsValidator (fst (checkIsValidator_range w vs k n))"
proof (induction vs arbitrary: k n)
  case Nil
  then show ?case by simp
next
  case (Cons v vs)
  obtain key err n1 k1 where g: "Node_getPubKey w k n = ((key, err), n1, k1)"
    by (metis prod.exhaust)
  have "IsValidator n1"
    using getPubKey_IsValidator [of w k n] g Cons.prems by simp
  then show ?case
    by (simp add: g Cons.IH)
qed

lemma checkIsValidator_mono:
  "IsValidator n \<Longrightarrow> IsValidator (Node_checkIsValidator w n)"
  by (simp add: Node_checkIsValidator_def checkIsValidator_range_mono split: prod.splits)

lemma Node_Start_mono:
  "IsValidator n \<Longrightarrow> IsValidator (fst (snd (Node_Start w n)))"
  by (simp add: Node_Start_def Let_def checkIsValidator_mono split: option.splits)

lemma Node_apply_mono:
  assumes "IsValidator n"
  shows "IsValidator (fst (snd (Node_apply op n)))"
proof (cases op)
  case (OpStart w)
  then show ?thesis
    using Node_Start_mono [OF assms, of w] by (simp add: split_beta)
next
  case (OpGetPubKey w)
  then show ?thesis
    using assms by (simp add: getPubKey_IsValidator)
qed (use assms in \<open>simp_all add: SetCheckIsValidatorInterval_def SendBlocksTo_def
      SendBlockLatenciesTo_def NotifyAboutDisconnects_def Node_Stop_def newBlockCallback_def
      latencyCallback_def disconnectCallback_def checkIsValidator_mono Let_def split_beta
      split: EventData.splits option.splits\<close>)

lemma Node_run_mono:
  "IsValidator n \<Longrightarrow> IsValidator (fst (snd (Node_run ops n)))"
proof (induction ops arbitrary: n)
  case Nil
  then show ?case by simp
next
  case (Cons op ops)
  obtain p n' tr where a: "Node_apply op n = (p, n', tr)"
    by (metis prod.exhaust)
  have v: "IsValidator n'"
    using Node_apply_mono [OF Cons.prems, of op] a by simp
  show ?case
  proof (cases p)
    case None
    then show ?thesis
      using Cons.IH [OF v] by (simp add: a split_beta)
  next
    case (Some pn)
    then show ?thesis by (simp add: a v)
  qed
qed

lemma checkIsValidator_range_cached:
  "pubKey n = Some key \<Longrightarrow> v \<in> set vs \<Longrightarrow> val_PubKey v = Some key
     \<Longrightarrow> IsValidator (fst (checkIsValidator_range w vs k n))"
proof (induction vs arbitrary: k n)
  case Nil
  then show ?case by simp
next
  case (Cons u vs)
  have g: "Node_getPubKey w k n = ((Some key, None), n, k)"
    using Cons.prems(1) by (simp add: Node_getPubKey_def)
  show ?case
  proof (cases "val_PubKey u = Some key")
    case True
    then show ?thesis
      by (simp add: g checkIsValidator_range_mono)
  next
    case False
    with Cons.prems have "v \<in> set vs" by auto
    then show ?thesis
      using False Cons.IH [OF Cons.prems(1) _ Cons.prems(3), of k] by (simp add: g)
  qed
qed

lemma checkIsValidator_range_status:
  assumes "pubKey n = None" "rpcStatus w k = Inr status" "status_PubKey status = Some key"
    and "v \<in> set vs" "val_PubKey v = Some key"
  shows "IsValidator (fst (checkIsValidator_range w vs k n))"
proof (cases vs)
  case Nil
  with assms show ?thesis by simp
next
  case (Cons u us)
  have g: "Node_getPubKey w k n = ((Some key, None), n\<lparr>pubKey := Some key\<rparr>, Suc k)"
    using assms(1-3) by (simp add: Node_getPubKey_def)
  show ?thesis
  proof (cases "val_PubKey u = Some key")
    case True
    then show ?thesis
      by (simp add: Cons g checkIsValidator_range_mono)
  next
    case False
    with assms(4,5) Cons have "v \<in> set us" by auto
    then show ?thesis
      using False checkIsValidator_range_cached [of "n\<lparr>pubKey := Some key\<rparr>" key v us w "Suc k"] assms(5)
      by (simp add: Cons g)
  qed
qed

text \<open>
  C7, as amended: \<open>IsValidator\<close> is latched. Whatever happens to a node whose flag is
  set (any sequence of its methods and callbacks, in any worlds, with validator sets
  that do or do not hold its key) the flag stays set. And \<open>checkIsValidator\<close> sets it
  when the "validators" query succeeds with a set that holds the node's own key,
  provided the key is known when the loop over the set begins: it is cached in the
  node, or none is cached and the first "status" query of the check succeeds with it.
\<close>

theorem IsValidator_latched:
  "(IsValidator n \<longrightarrow> IsValidator (fst (snd (Node_run ops n))))
   \<and> (rpcValidators w = Inr vals \<and> v \<in> set (Validators vals) \<and> val_PubKey v = Some key
        \<and> (pubKey n = Some key
             \<or> pubKey n = None \<and> rpcStatus w 0 = Inr status \<and> status_PubKey status = Some key)
      \<longrightarrow> IsValidator (Node_checkIsValidator w n))"
proof (intro conjI impI)
  assume "IsValidator n"
  then show "IsValidator (fst (snd (Node_run ops n)))" by (rule Node_run_mono)
next
  assume a: "rpcValidators w = Inr vals \<and> v \<in> set (Validators vals) \<and> val_PubKey v = Some key
        \<and> (pubKey n = Some key
             \<or> pubKey n = None \<and> rpcStatus w 0 = Inr status \<and> status_PubKey status = Some key)"
  then have q: "Node_validators w = (uint64 (BlockHeight vals), Validators vals, None)"
    by (simp add: Node_validators_def)
  from a have "IsValidator (fst (checkIsValidator_range w (Validators vals) 0 n))"
    using checkIsValidator_range_cached [of n key v "Validators vals" w 0]
      checkIsValidator_range_status [of n w 0 status key v "Validators vals"]
    by blast
  then show "IsValidator (Node_checkIsValidator w n)"
    by (simp add: Node_checkIsValidator_def q)
qed

theorem IsValidator_latched_witness:
  "rpcValidators w_ok = Inr two_validators
   \<and> \<lparr>val_PubKey = Some [2], val_VotingPower = 10\<rparr> \<in> set (Validators two_validators)
   \<and> pubKey (NewNode ''A'') = None
   \<and> rpcStatus w_ok 0 = Inr \<lparr>status_PubKey = Some [2]\<rparr>
   \<and> IsValidator (Node_checkIsValidator w_ok (NewNode ''A''))
   \<and> IsValidator (fst (snd (Node_run
         [OpCheckIsValidator w_other, OpDisconnect w_down, OpStop, OpCheckIsValidator w_rpc_down]
         (Node_checkIsValidator w_ok (NewNode ''A'')))))"
proof -
  have h: "rpcValidators w_ok = Inr two_validators
      \<and> \<lparr>val_PubKey = Some [2], val_VotingPower = 10\<rparr> \<in> set (Validators two_validators)
      \<and> pubKey (NewNode ''A'') = None
      \<and> rpcStatus w_ok 0 = Inr \<lparr>status_PubKey = Some [2]\<rparr>"
    by (simp add: w_ok_def two_validators_def NewNode_def)
  have a: "IsValidator (Node_checkIsValidator w_ok (NewNode ''A''))"
    using h IsValidator_latched [of "NewNode ''A''" "[]" w_ok two_validators
        "\<lparr>val_PubKey = Some [2], val_VotingPower = 10\<rparr>" "[2]" "\<lparr>status_PubKey = Some [2]\<rparr>"]
    by simp
  have b: "IsValidator (fst (snd (Node_run
         [OpCheckIsValidator w_other, OpDisconnect w_down, OpStop, OpCheckIsValidator w_rpc_down]
         (Node_checkIsValidator w_ok (NewNode ''A'')))))"
    using a IsValidator_latched [of "Node_checkIsValidator w_ok (NewNode ''A'')"
        "[OpCheckIsValidator w_other, OpDisconnect w_down, OpStop, OpCheckIsValidator w_rpc_down]"]
    by blast
  from h a b show ?thesis
    by blast
qed

text \<open>
  C7 as stated fails: a node with no cached key, a validator set \<open>[[2], [1]]\<close> that
  holds the node's key \<open>[2]\<close>, and a "status" query that fails the first time. The
  loop has no key to compare with the first validator, learns \<open>[2]\<close> in its second
  round and compares it with \<open>[1]\<close> only: the check ends with the key \<open>[2]\<close> cached
  and the flag not set.
\<close>

theorem IsValidator_latched_counterexample:
  "snd (snd (Node_validators w_flaky)) = None
   \<and> map val_PubKey (fst (snd (Node_validators w_flaky))) = [Some [2], Some [1]]
   \<and> pubKey (NewNode ''A'') = None
   \<and> rpcStatus w_flaky 0 = Inl (Err ''timeout'')
   \<and> rpcStatus w_flaky 1 = Inr \<lparr>status_PubKey = Some [2]\<rparr>
   \<and> pubKey (Node_checkIsValidator w_flaky (NewNode ''A'')) = Some [2]
   \<and> \<not> IsValidator (Node_checkIsValidator w_flaky (NewNode ''A''))"
  by (simp add: Node_checkIsValidator_def Node_validators_def Node_getPubKey_def w_flaky_def
      w_ok_def NewNode_def)

lemma backoff_rounds_Cons:
  "i < j \<Longrightarrow> backoff_rounds i j = [Sleep (2 ^ i * Second), EmStart] @ backoff_rounds (Suc i) j"
  by (simp add: backoff_rounds_def upt_conv_Cons)

lemma backoff_rounds_snoc:
  "i \<le> j \<Longrightarrow> backoff_rounds i (Suc j) = backoff_rounds i j @ [Sleep (2 ^ j * Second), EmStart]"
  by (simp add: backoff_rounds_def)

lemma backoff_all_fail:
  assumes "\<And>k. k \<le> maxRestarts \<Longrightarrow> emStart w k \<noteq> None"
  shows "attempt \<le> maxRestarts \<Longrightarrow>
     RestartEventMeterBackoff_from w attempt
       = (Some (Err ''Reached max restarts''), backoff_rounds attempt (Suc maxRestarts))"
proof (induction "maxRestarts - attempt" arbitrary: attempt)
  case 0
  then have e: "attempt = maxRestarts" by simp
  obtain err where f: "emStart w maxRestarts = Some err"
    using assms [of maxRestarts] by auto
  show ?case
    unfolding e
    by (subst RestartEventMeterBackoff_from.simps) (simp add: f backoff_rounds_def)
next
  case (Suc d)
  then have lt: "attempt < maxRestarts" by simp
  obtain err where f: "emStart w attempt = Some err"
    using assms [of attempt] lt by auto
  have ih: "RestartEventMeterBackoff_from w (Suc attempt)
       = (Some (Err ''Reached max restarts''), backoff_rounds (Suc attempt) (Suc maxRestarts))"
    using Suc.hyps(1) [of "Suc attempt"] Suc.hyps(2) lt by simp
  show ?case
    using lt
    by (subst RestartEventMeterBackoff_from.simps)
       (simp add: f ih backoff_rounds_Cons [of attempt "Suc maxRestarts"])
qed

lemma backoff_first_success:
  assumes "emStart w j = None" "j \<le> maxRestarts"
    and "\<And>k. k < j \<Longrightarrow> emStart w k \<noteq> None"
  shows "attempt \<le> j \<Longrightarrow>
     RestartEventMeterBackoff_from w attempt = (None, backoff_rounds attempt (Suc j))"
proof (induction "j - attempt" arbitrary: attempt)
  case 0
  then have e: "attempt = j" by simp
  show ?case
    unfolding e
    by (subst RestartEventMeterBackoff_from.simps) (simp add: assms(1) backoff_rounds_def)
next
  case (Suc d)
  then have lt: "attempt < j" by simp
  obtain err where f: "emStart w attempt = Some err"
    using assms(3) [of attempt] lt by auto
  have ih: "RestartEventMeterBackoff_from w (Suc attempt) = (None, backoff_rounds (Suc attempt) (Suc j))"
    using Suc.hyps(1) [of "Suc attempt"] Suc.hyps(2) lt by simp
  show ?case
    using lt assms(2)
    by (subst RestartEventMeterBackoff_from.simps)
       (simp add: f ih backoff_rounds_Cons [of attempt "Suc j"])
qed

lemma length_backoff_rounds: "length (backoff_rounds i j) = 2 * (j - i)"
  by (simp add: backoff_rounds_def length_concat o_def sum_list_triv)

lemma EmStart_backoff_rounds:
  "length (filter (\<lambda>e. e = EmStart) (backoff_rounds i j)) = j - i"
proof (induction "j - i" arbitrary: i)
  case 0
  then show ?case by (simp add: backoff_rounds_def)
next
  case (Suc d)
  then have "i < j" by simp
  then show ?case
    using Suc.hyps(1) [of "Suc i"] Suc.hyps(2)
    by (simp add: backoff_rounds_Cons)
qed

lemma backoff_sleeps_in_range:
  "Sleep d \<in> set (backoff_rounds i (Suc maxRestarts)) \<Longrightarrow> 0 < d \<and> d < 2 ^ 63"
proof -
  assume "Sleep d \<in> set (backoff_rounds i (Suc maxRestarts))"
  then have "\<exists>k<26. d = 2 ^ k * Second"
    by (auto simp: backoff_rounds_def maxRestarts_def)
  then obtain k where k: "k < 26" "d = 2 ^ k * Second"
    by blast
  have "(2::int) ^ k \<le> 2 ^ 25"
    using k(1) by (intro power_increasing) auto
  then have "d \<le> 2 ^ 25 * 1000000000"
    by (simp add: k(2) Second_def)
  moreover have "0 < d" by (simp add: k(2) Second_def)
  ultimately show ?thesis by simp
qed

text \<open>
  C5: the delay before attempt \<open>k\<close> is \<open>2 ^ k\<close> seconds, but the procedure gives up
  after the 26th failed attempt, not the 25th. With an event meter that never starts
  again it sleeps and tries 26 times, the last time after \<open>2 ^ 25\<close> seconds; with one
  that fails 25 times and then starts, the 26th attempt is made and succeeds.
\<close>

theorem backoff_runs_26_attempts:
  "RestartEventMeterBackoff w_down = (Some (Err ''Reached max restarts''), backoff_rounds 0 26)
   \<and> length (filter (\<lambda>e. e = EmStart) (snd (RestartEventMeterBackoff w_down))) = 26
   \<and> backoff_rounds 0 26 = backoff_rounds 0 25 @ [Sleep (2 ^ 25 * Second), EmStart]
   \<and> RestartEventMeterBackoff w_up_at_25 = (None, backoff_rounds 0 26)"
proof -
  have a: "RestartEventMeterBackoff w_down = (Some (Err ''Reached max restarts''), backoff_rounds 0 26)"
    using backoff_all_fail [of w_down 0]
    by (simp add: RestartEventMeterBackoff_def w_down_def maxRestarts_def)
  have b: "RestartEventMeterBackoff w_up_at_25 = (None, backoff_rounds 0 26)"
    using backoff_first_success [of w_up_at_25 25 0]
    by (simp add: RestartEventMeterBackoff_def w_up_at_25_def w_down_def maxRestarts_def)
  have c: "backoff_rounds 0 26 = backoff_rounds 0 25 @ [Sleep (2 ^ 25 * Second), EmStart]"
    using backoff_rounds_snoc [of 0 25] by simp
  show ?thesis
    using c by (simp add: a b EmStart_backoff_rounds)
qed

section \<open>Theorems: Monitor and Network\<close>

lemma getPubKey_Name: "Name (fst (snd (Node_getPubKey w k n))) = Name n"
  by (simp add: Node_getPubKey_def split: sum.splits)

lemma checkIsValidator_range_Name: "Name (fst (checkIsValidator_range w vs k n)) = Name n"
proof (induction vs arbitrary: k n)
  case Nil
  then show ?case by simp
next
  case (Cons v vs)
  obtain key err n1 k1 where g: "Node_getPubKey w k n = ((key, err), n1, k1)"
    by (metis prod.exhaust)
  have "Name n1 = Name n"
    using getPubKey_Name [of w k n] g by simp
  then show ?case
    by (simp add: g Cons.IH)
qed

lemma checkIsValidator_Name: "Name (Node_checkIsValidator w n) = Name n"
  by (simp add: Node_checkIsValidator_def checkIsValidator_range_Name split: prod.splits)

lemma Node_Start_Name: "Name (fst (snd (Node_Start w n))) = Name n"
  by (simp add: Node_Start_def Let_def checkIsValidator_Name split: option.splits)

lemma Node_Start_result: "fst (Node_Start w n) = fst (Node_Start w n')"
  by (simp add: Node_Start_def Let_def split: option.splits)

lemma Node_apply_Name: "Name (fst (snd (Node_apply op n))) = Name n"
proof (cases op)
  case (OpStart w)
  then show ?thesis
    using Node_Start_Name [of w n] by (simp add: split_beta)
next
  case (OpGetPubKey w)
  then show ?thesis by (simp add: getPubKey_Name)
qed (simp_all add: SetCheckIsValidatorInterval_def SendBlocksTo_def
      SendBlockLatenciesTo_def NotifyAboutDisconnects_def Node_Stop_def newBlockCallback_def
      latencyCallback_def disconnectCallback_def checkIsValidator_Name Let_def split_beta
      split: EventData.splits option.splits)

lemma NodeByName_range_found:
  "name \<in> set (map Name ns) \<Longrightarrow>
     \<exists>j < length ns. fst (NodeByName_range name ns i) = i + int j \<and> Name (ns ! j) = name"
proof (induction ns arbitrary: i)
  case Nil
  then show ?case by simp
next
  case (Cons n ns)
  show ?case
  proof (cases "name = Name n")
    case True
    then show ?thesis by auto
  next
    case False
    with Cons.prems have "name \<in> set (map Name ns)" by auto
    from Cons.IH [OF this, of "i + 1"] obtain j where
      j: "j < length ns" "fst (NodeByName_range name ns (i + 1)) = i + 1 + int j" "Name (ns ! j) = name"
      by blast
    then have "Suc j < length (n # ns) \<and> fst (NodeByName_range name (n # ns) i) = i + int (Suc j)
        \<and> Name ((n # ns) ! Suc j) = name"
      using False by simp
    then show ?thesis by blast
  qed
qed

lemma swap_remove_list:
  assumes "distinct ys" "j < length ys"
  shows "distinct (butlast (ys[j := last ys]))
     \<and> set (butlast (ys[j := last ys])) = set ys - {ys ! j}"
proof (cases ys rule: rev_cases)
  case Nil
  with assms show ?thesis by simp
next
  case (snoc zs z)
  have z: "z \<notin> set zs" and dz: "distinct zs"
    using assms(1) snoc by auto
  show ?thesis
  proof (cases "j = length zs")
    case True
    then show ?thesis
      using z dz by (auto simp: snoc)
  next
    case False
    then have lt: "j < length zs"
      using assms(2) snoc by simp
    then have ne: "zs ! j \<noteq> z"
      using z by (metis nth_mem)
    have b: "butlast (ys[j := last ys]) = zs[j := z]"
      using lt by (simp add: snoc list_update_append1)
    have "distinct (zs[j := z])"
      using dz z by (simp add: distinct_list_update)
    moreover have "set (zs[j := z]) = insert z (set zs - {zs ! j})"
      using dz lt by (rule set_update_distinct)
    moreover have "set ys - {ys ! j} = insert z (set zs - {zs ! j})"
      using lt ne by (auto simp: snoc nth_append)
    ultimately show ?thesis
      by (simp add: b)
  qed
qed

lemma swap_remove_names:
  assumes "distinct (map f xs)" "j < length xs"
  shows "distinct (map f (butlast (xs[j := last xs])))
     \<and> set (map f (butlast (xs[j := last xs]))) = set (map f xs) - {f (xs ! j)}"
proof -
  have ne: "xs \<noteq> []"
    using assms(2) by auto
  have "map f (butlast (xs[j := last xs])) = butlast ((map f xs)[j := last (map f xs)])"
    by (simp add: map_butlast map_update last_map [OF ne])
  then show ?thesis
    using swap_remove_list [of "map f xs" j] assms by simp
qed

lemma Monitor_Monitor_started:
  assumes "fst (Node_Start w n) = None"
  shows "fst (Monitor_Monitor w n m) = None
     \<and> tracked (fst (snd (Monitor_Monitor w n m))) = tracked m @ [Name n]
     \<and> nodeStatus (Network (fst (snd (Monitor_Monitor w n m))))
         = (nodeStatus (Network m))(Name n \<mapsto> False)
     \<and> dom (nodeQuit (fst (snd (Monitor_Monitor w n m)))) = insert (Name n) (dom (nodeQuit m))"
proof -
  define n1 where "n1 = NotifyAboutDisconnects (nextChan m + 2)
       (SendBlockLatenciesTo (nextChan m + 1) (SendBlocksTo (nextChan m) n))"
  obtain err n2 tr where s: "Node_Start w n1 = (err, n2, tr)"
    by (metis prod.exhaust)
  have e: "err = None"
    using assms Node_Start_result [of w n1 n] s by simp
  have "Name n1 = Name n"
    by (simp add: n1_def NotifyAboutDisconnects_def SendBlockLatenciesTo_def SendBlocksTo_def)
  then have nm: "Name n2 = Name n"
    using Node_Start_Name [of w n1] s by simp
  have "Monitor_Monitor w n m =
      (None,
       m\<lparr>Nodes := Nodes m @ [n2], nextChan := nextChan m + 3,
         Network := Network_NewNode (Name n) (Network m),
         nodeQuit := (nodeQuit m)(Name n \<mapsto> nextChan m + 3), nextChan := nextChan m + 3 + 1\<rparr>,
       tr @ [GoListen (Name n) (nextChan m) (nextChan m + 1) (nextChan m + 2) (nextChan m + 3)])"
    unfolding Monitor_Monitor_def Let_def n1_def [symmetric] s e
    by (simp add: nm)
  then show ?thesis
    by (simp add: tracked_def Network_NewNode_def nm)
qed

lemma Monitor_Monitor_failed_start:
  assumes "fst (Node_Start w n) = Some e"
  shows "fst (Monitor_Monitor w n m) = Some e
     \<and> tracked (fst (snd (Monitor_Monitor w n m))) = tracked m @ [Name n]
     \<and> Network (fst (snd (Monitor_Monitor w n m))) = Network m
     \<and> nodeQuit (fst (snd (Monitor_Monitor w n m))) = nodeQuit m"
proof -
  define n1 where "n1 = NotifyAboutDisconnects (nextChan m + 2)
       (SendBlockLatenciesTo (nextChan m + 1) (SendBlocksTo (nextChan m) n))"
  obtain err n2 tr where s: "Node_Start w n1 = (err, n2, tr)"
    by (metis prod.exhaust)
  have e: "err = Some e"
    using assms Node_Start_result [of w n1 n] s by simp
  have "Name n1 = Name n"
    by (simp add: n1_def NotifyAboutDisconnects_def SendBlockLatenciesTo_def SendBlocksTo_def)
  then have nm: "Name n2 = Name n"
    using Node_Start_Name [of w n1] s by simp
  have "Monitor_Monitor w n m =
      (Some e, m\<lparr>Nodes := Nodes m @ [n2], nextChan := nextChan m + 3\<rparr>, tr)"
    unfolding Monitor_Monitor_def Let_def n1_def [symmetric] s e
    by simp
  then show ?thesis
    by (simp add: tracked_def nm)
qed

lemma updateNumValidator_round_failed:
  assumes "rpcValidators w = Inl e" "i < length (Nodes m)"
  shows "lv_err (fst (updateNumValidator_round w i vars m)) = Some e
     \<and> NumValidators (Network (snd (updateNumValidator_round w i vars m)))
         = (if Network_Height (Network m) = 0 then 0 else NumValidators (Network m))"
  using assms
  by (simp add: updateNumValidator_round_def Node_NumValidators_def Node_validators_def)

lemma updateNumValidator_round_answered:
  assumes "rpcValidators w = Inr vals" "i < length (Nodes m)"
  shows "NumValidators (Network (snd (updateNumValidator_round w i vars m)))
         = (if Network_Height (Network m) \<le> uint64 (BlockHeight vals)
            then int (length (Validators vals)) else NumValidators (Network m))"
  using assms
  by (simp add: updateNumValidator_round_def Node_NumValidators_def Node_validators_def)

lemma Monitor_Unmonitor_tracked:
  assumes "in_step m" "Name n \<in> set (tracked m)" "\<not> quit_closed n"
  shows "fst (Monitor_Unmonitor n m) = None \<and> in_step (fst (snd (Monitor_Unmonitor n m)))
     \<and> nodeStatus (Network (fst (snd (Monitor_Unmonitor n m))))
         = (nodeStatus (Network m))(Name n := None)
     \<and> set (tracked (fst (snd (Monitor_Unmonitor n m)))) = set (tracked m) - {Name n}"
proof -
  have d: "distinct (map Name (Nodes m))"
    and s1: "set (map Name (Nodes m)) = dom (nodeStatus (Network m))"
    and s2: "set (map Name (Nodes m)) = dom (nodeQuit m)"
    using assms(1) unfolding in_step_def tracked_def by blast+
  have st: "Node_Stop n = (None, n\<lparr>Online := False, quit_closed := True\<rparr>, [EmStop])"
    using assms(3) by (simp add: Node_Stop_def Let_def)
  obtain q where q: "nodeQuit m (Name n) = Some q"
    using assms(2) s2 by (auto simp: tracked_def)
  obtain j where j: "j < length (Nodes m)"
      "fst (NodeByName_range (Name n) (Nodes m) 0) = int j" "Name (Nodes m ! j) = Name n"
    using NodeByName_range_found [of "Name n" "Nodes m" 0] assms(2) by (auto simp: tracked_def)
  obtain i r where nb: "NodeByName_range (Name n) (Nodes m) 0 = (i, r)"
    by (metis prod.exhaust)
  have i: "i = int j"
    using j(2) nb by simp
  have sw: "distinct (map Name (butlast ((Nodes m)[j := last (Nodes m)])))
     \<and> set (map Name (butlast ((Nodes m)[j := last (Nodes m)]))) = set (map Name (Nodes m)) - {Name n}"
    using swap_remove_names [OF d j(1)] j(3) by simp
  have u: "Monitor_Unmonitor n m =
      (None,
       m\<lparr>Network := Network_NodeDeleted (Name n) (Network m),
         nodeQuit := (nodeQuit m)(Name n := None),
         Nodes := butlast ((Nodes m)[j := last (Nodes m)])\<rparr>,
       [EmStop, Close q])"
    using j(1) by (simp add: Monitor_Unmonitor_def Let_def st q Monitor_NodeByName_def nb i)
  let ?m' = "fst (snd (Monitor_Unmonitor n m))"
  have t: "tracked ?m' = map Name (butlast ((Nodes m)[j := last (Nodes m)]))"
    by (simp add: u tracked_def)
  have n1: "nodeStatus (Network ?m') = (nodeStatus (Network m))(Name n := None)"
    by (simp add: u Network_NodeDeleted_def)
  have n2: "nodeQuit ?m' = (nodeQuit m)(Name n := None)"
    by (simp add: u)
  have "distinct (tracked ?m')"
    using sw t by simp
  moreover have st': "set (tracked ?m') = set (map Name (Nodes m)) - {Name n}"
    using sw t by simp
  moreover have "dom (nodeStatus (Network ?m')) = dom (nodeStatus (Network m)) - {Name n}"
    by (simp add: n1)
  moreover have "dom (nodeQuit ?m') = dom (nodeQuit m) - {Name n}"
    by (simp add: n2)
  ultimately have "in_step ?m'"
    unfolding in_step_def using s1 s2 by simp
  then show ?thesis
    using st' n1 by (simp add: u tracked_def)
qed

lemma Monitor_Monitor_in_step:
  assumes "in_step m" "Name n \<notin> set (tracked m)" "fst (Node_Start w n) = None"
  shows "in_step (fst (snd (Monitor_Monitor w n m)))"
proof -
  note s = Monitor_Monitor_started [OF assms(3), of m]
  let ?m' = "fst (snd (Monitor_Monitor w n m))"
  have d: "distinct (tracked m)"
    and e1: "set (tracked m) = dom (nodeStatus (Network m))"
    and e2: "set (tracked m) = dom (nodeQuit m)"
    using assms(1) unfolding in_step_def by blast+
  have "distinct (tracked ?m')"
    using s d assms(2) by simp
  moreover have "set (tracked ?m') = insert (Name n) (set (tracked m))"
    using s by simp
  moreover have "dom (nodeStatus (Network ?m')) = insert (Name n) (dom (nodeStatus (Network m)))"
    using s by simp
  moreover have "dom (nodeQuit ?m') = insert (Name n) (dom (nodeQuit m))"
    using s by simp
  ultimately show ?thesis
    unfolding in_step_def using e1 e2 by simp
qed

lemma in_step_NewMonitor: "in_step NewMonitor"
  by (simp add: in_step_def NewMonitor_def NewNetwork_def tracked_def)

lemma Monitor_run_in_step:
  "in_step m \<Longrightarrow> admissible ops m \<Longrightarrow>
     fst (Monitor_run ops m) = None \<and> in_step (snd (Monitor_run ops m))"
proof (induction ops arbitrary: m)
  case Nil
  then show ?case by simp
next
  case (Cons op ops)
  show ?case
  proof (cases op)
    case (OpMonitor w n)
    with Cons.prems have a: "Name n \<notin> set (tracked m)" "fst (Node_Start w n) = None"
      "admissible ops (fst (snd (Monitor_Monitor w n m)))"
      by simp_all
    have "in_step (fst (snd (Monitor_Monitor w n m)))"
      using Cons.prems(1) a(1,2) by (rule Monitor_Monitor_in_step)
    from Cons.IH [OF this a(3)] show ?thesis
      by (simp add: OpMonitor)
  next
    case (OpUnmonitor n)
    with Cons.prems have a: "Name n \<in> set (tracked m)" "\<not> quit_closed n"
      "admissible ops (fst (snd (Monitor_Unmonitor n m)))"
      by (simp_all add: split_beta)
    have u: "fst (Monitor_Unmonitor n m) = None" "in_step (fst (snd (Monitor_Unmonitor n m)))"
      using Monitor_Unmonitor_tracked [OF Cons.prems(1) a(1,2)] by simp_all
    from Cons.IH [OF u(2) a(3)] u(1) show ?thesis
      by (simp add: OpUnmonitor split_beta)
  qed
qed

lemmas eval_defs =
  Monitor_Monitor_def Monitor_Unmonitor_def Monitor_NodeByName_def Node_Start_def Node_Stop_def
  Node_checkIsValidator_def Node_validators_def Node_getPubKey_def NewNode_def NewMonitor_def
  NewNetwork_def Network_NewNode_def Network_NodeDeleted_def SendBlocksTo_def
  SendBlockLatenciesTo_def NotifyAboutDisconnects_def w_ok_def w_down_def two_validators_def
  tracked_def Let_def

lemma run_remove_B:
  "fst (Monitor_run ops_remove_B NewMonitor) = None
   \<and> tracked (snd (Monitor_run ops_remove_B NewMonitor)) = [''A'', ''C'']
   \<and> dom (nodeStatus (Network (snd (Monitor_run ops_remove_B NewMonitor)))) = {''A'', ''C''}"
  by (simp add: ops_remove_B_def eval_defs insert_commute)

lemma admissible_remove_B: "admissible ops_remove_B NewMonitor"
  by (simp add: ops_remove_B_def eval_defs)

text \<open>
  C1 as stated fails: admit two nodes of the name \<open>A\<close> and remove one. After the two
  admissions two nodes are tracked and Network has the one entry \<open>A\<close>; after the
  removal, which does not panic, one node \<open>A\<close> is still tracked and Network has no
  entry for \<open>A\<close>.
\<close>

theorem tracked_nodes_counterexample:
  "tracked (snd (Monitor_run (take 2 ops_same_name) NewMonitor)) = [''A'', ''A'']
   \<and> dom (nodeStatus (Network (snd (Monitor_run (take 2 ops_same_name) NewMonitor)))) = {''A''}
   \<and> fst (Monitor_run ops_same_name NewMonitor) = None
   \<and> tracked (snd (Monitor_run ops_same_name NewMonitor)) = [''A'']
   \<and> nodeStatus (Network (snd (Monitor_run ops_same_name NewMonitor))) ''A'' = None"
  by (simp add: ops_same_name_def eval_defs)

text \<open>
  C2: when \<open>n.Start()\<close> fails, \<open>Monitor(n)\<close> returns the error and creates no Network
  entry and no \<open>nodeQuit\<close> entry, but the node is in the tracked set all the same: the
  append comes before the start and is not undone.
\<close>

theorem Monitor_failed_start_leaves_node:
  "fst (Monitor_Monitor w_down (NewNode ''A'') NewMonitor) = Some (Err ''connection refused'')
   \<and> tracked (fst (snd (Monitor_Monitor w_down (NewNode ''A'') NewMonitor))) = [''A'']
   \<and> tracked NewMonitor = []
   \<and> nodeStatus (Network (fst (snd (Monitor_Monitor w_down (NewNode ''A'') NewMonitor)))) ''A'' = None
   \<and> nodeQuit (fst (snd (Monitor_Monitor w_down (NewNode ''A'') NewMonitor))) ''A'' = None"
  by (simp add: eval_defs)

text \<open>
  C4: a failed query does overwrite the validator count while Network's height is 0.
  The monitor tracks \<open>A\<close> and has seen no block; a first round stores the 2
  validators of a successful query; in the next round the query fails, \<open>NumValidators()\<close>
  returns height 0 and count 0, the test \<open>Network.Height <= height\<close> holds, and the
  count is overwritten with 0.
\<close>

theorem failed_query_resets_NumValidators:
  "Network_Height (Network monitor_A) = 0
   \<and> NumValidators (Network (snd (updateNumValidator_round w_ok 0 loop_vars0 monitor_A))) = 2
   \<and> lv_err (fst (updateNumValidator_round w_rpc_down 0
                (fst (updateNumValidator_round w_ok 0 loop_vars0 monitor_A))
                (snd (updateNumValidator_round w_ok 0 loop_vars0 monitor_A))))
       = Some (Err ''timeout'')
   \<and> NumValidators (Network (snd (updateNumValidator_round w_rpc_down 0
                (fst (updateNumValidator_round w_ok 0 loop_vars0 monitor_A))
                (snd (updateNumValidator_round w_ok 0 loop_vars0 monitor_A))))) = 0"
  by (simp add: updateNumValidator_round_def Node_NumValidators_def monitor_A_def loop_vars0_def
      w_rpc_down_def uint64_def eval_defs)

text \<open>
  C1, as amended: a new monitor is in step, and every sequence of \<open>Monitor(n)\<close> and
  \<open>Unmonitor(n)\<close> calls in which each admitted node has a name that is not tracked and
  starts, and each removed node is tracked and not stopped before, runs without a panic
  and leaves the monitor in step: the tracked names are pairwise distinct and are
  exactly the names with a Network entry (and with a quit channel). Such an admission
  adds the node's name and creates its entry, offline; such a removal takes the name
  away and deletes its entry.
\<close>

theorem Monitor_Network_in_step:
  "in_step NewMonitor
   \<and> (in_step m \<and> admissible ops m \<longrightarrow>
        fst (Monitor_run ops m) = None \<and> in_step (snd (Monitor_run ops m)))
   \<and> (in_step m \<and> Name n \<notin> set (tracked m) \<and> fst (Node_Start w n) = None \<longrightarrow>
        set (tracked (snd (Monitor_apply (OpMonitor w n) m))) = insert (Name n) (set (tracked m))
        \<and> nodeStatus (Network (snd (Monitor_apply (OpMonitor w n) m)))
            = (nodeStatus (Network m))(Name n \<mapsto> False))
   \<and> (in_step m \<and> Name n \<in> set (tracked m) \<and> \<not> quit_closed n \<longrightarrow>
        set (tracked (snd (Monitor_apply (OpUnmonitor n) m))) = set (tracked m) - {Name n}
        \<and> nodeStatus (Network (snd (Monitor_apply (OpUnmonitor n) m)))
            = (nodeStatus (Network m))(Name n := None))"
proof (intro conjI impI)
  show "in_step NewMonitor"
    by (rule in_step_NewMonitor)
next
  assume "in_step m \<and> admissible ops m"
  then show "fst (Monitor_run ops m) = None" "in_step (snd (Monitor_run ops m))"
    using Monitor_run_in_step [of m ops] by simp_all
next
  assume a: "in_step m \<and> Name n \<notin> set (tracked m) \<and> fst (Node_Start w n) = None"
  then have s: "fst (Node_Start w n) = None"
    by simp
  show "set (tracked (snd (Monitor_apply (OpMonitor w n) m))) = insert (Name n) (set (tracked m))"
    using Monitor_Monitor_started [OF s, of m] by simp
  show "nodeStatus (Network (snd (Monitor_apply (OpMonitor w n) m)))
            = (nodeStatus (Network m))(Name n \<mapsto> False)"
    using Monitor_Monitor_started [OF s, of m] by simp
next
  assume a: "in_step m \<and> Name n \<in> set (tracked m) \<and> \<not> quit_closed n"
  then have u: "set (tracked (fst (snd (Monitor_Unmonitor n m)))) = set (tracked m) - {Name n}"
      "nodeStatus (Network (fst (snd (Monitor_Unmonitor n m))))
         = (nodeStatus (Network m))(Name n := None)"
    using Monitor_Unmonitor_tracked [of m n] by simp_all
  show "set (tracked (snd (Monitor_apply (OpUnmonitor n) m))) = set (tracked m) - {Name n}"
    using u(1) by (simp add: split_beta)
  show "nodeStatus (Network (snd (Monitor_apply (OpUnmonitor n) m)))
            = (nodeStatus (Network m))(Name n := None)"
    using u(2) by (simp add: split_beta)
qed

theorem Monitor_Network_in_step_witness:
  "admissible ops_remove_B NewMonitor
   \<and> fst (Monitor_run ops_remove_B NewMonitor) = None
   \<and> in_step (snd (Monitor_run ops_remove_B NewMonitor))
   \<and> tracked (snd (Monitor_run ops_remove_B NewMonitor)) = [''A'', ''C'']
   \<and> dom (nodeStatus (Network (snd (Monitor_run ops_remove_B NewMonitor)))) = {''A'', ''C''}"
  using Monitor_Network_in_step [of NewMonitor ops_remove_B] admissible_remove_B run_remove_B
  by simp



lemma Height_NodeIsOnline: "Network_Height (Network_NodeIsOnline a nw) = Network_Height nw"
  by (simp add: Network_NodeIsOnline_def split: option.splits)

lemma Height_NodeIsDown: "Network_Height (Network_NodeIsDown a nw) = Network_Height nw"
  by (simp add: Network_NodeIsDown_def split: option.splits)


lemma listen_Height_mono:
  "Network_Height nw \<le> Network_Height (net_of (Monitor_listen a cs nw))"
proof (induction a cs nw rule: Monitor_listen.induct)
  case (3 nodeName b cs nw)
  have "Network_Height nw \<le> Network_Height (Network_NodeIsOnline nodeName (Network_NewBlock b nw))"
    by (simp add: Height_NodeIsOnline Network_NewBlock_def)
  with 3 show ?case by simp
next
  case (5 nodeName disconnected cs nw)
  then show ?case
    by (cases disconnected) (simp_all add: Height_NodeIsOnline Height_NodeIsDown)
qed (simp_all add: Height_NodeIsOnline Height_NodeIsDown Network_NewBlockLatency_def)




text \<open>
  C3: ingesting a block header of height \<open>h\<close> leaves Network's height at the maximum of
  the previous height and \<open>h\<close>, in \<open>NewBlock\<close> and in the listener's round for a
  header; and over any sequence of listener rounds the height never decreases.
\<close>

theorem Network_height_never_decreases:
  "Network_Height (Network_NewBlock b nw) = max (Network_Height nw) (uint64 (hdr_Height b))
   \<and> Network_Height (net_of (Monitor_listen a [BlockCh b] nw))
       = max (Network_Height nw) (uint64 (hdr_Height b))
   \<and> Network_Height nw \<le> Network_Height (net_of (Monitor_listen a cs nw))"
  by (simp add: listen_Height_mono Height_NodeIsOnline Network_NewBlock_def)



end
